theory Spec2Isabelle
  imports Main "HOL-Library.Sublist"
begin

section \<open>Data model\<close>

text \<open>
  The records the two source files exchange with their collaborators. The hooks own no
  entity: order-books, orders, assets and maker fees are read from the query client, and
  only the fields the hooks touch are kept. An optional field or an \<open>undefined\<close> value is
  an \<^typ>\<open>'a option\<close>.
\<close>

subsection \<open>Options and constants of the string helpers\<close>

record shorten_opts =
  prefixLength :: "int option"
  suffixLength :: "int option"
  delim :: "string option"

text \<open>A network of the Bitcoin package, with the two version bytes the validator reads.\<close>

record Network =
  pubKeyHash :: nat
  scriptHash :: nat

subsection \<open>Order-books, assets, orders\<close>

text \<open>A fixed-point decimal of the unit package, kept as its integer representation;
  \<open>new Dec(0)\<close> is \<open>Dec 0\<close>.\<close>

datatype Dec = Dec int

record Orderbook =
  baseDenom :: string
  quoteDenom :: string
  contractAddress :: string
  poolId :: "string option"

record Asset =
  coinDenom :: string
  coinMinimalDenom :: string

record Order =
  tick_id :: int
  order_id :: int
  orderbookAddress :: string

record MakerFeeData =
  makerFee :: "Dec option"

datatype OrderFilter = Active | Filled | Historical | Open

subsection \<open>The query client\<close>

record TRPCError =
  message :: string

record 'a UseQueryResult =
  data :: "'a option"
  isLoading :: bool
  error :: "TRPCError option"

record 'i Page =
  items :: "'i list"
  nextCursor :: "int option"

record 'i InfiniteData =
  pages :: "'i Page list"

text \<open>The eight fields of an infinite query that the order hooks read; \<open>'f\<close> and \<open>'r\<close> are
  the types of the two callbacks.\<close>

record ('d, 'f, 'r) UseInfiniteQueryResult =
  data :: "'d option"
  isLoading :: bool
  fetchNextPage :: 'f
  isFetching :: bool
  isFetchingNextPage :: bool
  hasNextPage :: "bool option"
  refetch :: 'r
  isRefetching :: bool

record OrdersSQSInput =
  userOsmoAddress :: string
  limit :: int
  filter_by :: "OrderFilter option"

record OrdersInput =
  userOsmoAddress :: string
  limit :: int

text \<open>The options object handed to a query; the page-cursor callback
  \<open>getNextPageParam\<close> is left to the query client.\<close>

record QueryOptions =
  initialCursor :: "int option"
  refetchInterval :: "int option"
  cacheTime :: "int option"
  staleTime :: "int option"
  enabled :: bool
  refetchOnMount :: bool
  keepPreviousData :: bool
  abortOnUnmount :: bool
  skipBatch :: bool

subsection \<open>Arguments and results of the hooks\<close>

record UseOrderbooksResult =
  orderbooks :: "Orderbook list"
  isLoading :: bool

record UseMakerFeeResult =
  makerFee :: Dec
  isLoading :: bool
  error :: "TRPCError option"

record UseOrderbookResult =
  orderbook :: "Orderbook option"
  poolId :: string
  contractAddress :: string
  makerFee :: Dec
  isMakerFeeLoading :: bool
  isOrderbookLoading :: bool
  error :: "string option"

record OrdersQueryArgs =
  userAddress :: string
  pageSize :: "int option"
  refetchInterval :: "int option"
  filter_by :: "OrderFilter option"

record ClaimableOrdersArgs =
  userAddress :: string
  disabled :: "bool option"
  refetchInterval :: "int option"

record UseClaimableOrdersQueryResult =
  data :: "Order list option"
  isLoading :: bool

subsection \<open>The wallet\<close>

record CoinPrimitive =
  denom :: string
  amount :: string

record BatchClaim =
  orders :: "int list list"

record ClaimMsg =
  batch_claim :: BatchClaim

record ExecuteContractMsg =
  contractAddress :: string
  msg :: ClaimMsg
  funds :: "CoinPrimitive list"

text \<open>The wallet of the chain, known by its address.\<close>

datatype Account = Account string

text \<open>A submission to the wallet: the account it is made on, the message type and the
  batch of messages. The wallet's state is the list of submissions made so far.\<close>

datatype WalletCall = SendMultiExecuteContractMsg Account string "ExecuteContractMsg list"

text \<open>What \<open>useOrderbookClaimableOrders\<close> returns: its \<open>orders\<close>, their \<open>count\<close>, the
  loading flag and the \<open>claimAllOrders\<close> callback, a transformer of the wallet's state.\<close>

record UseOrderbookClaimableOrdersResult =
  claimable_orders :: "Order list"
  count :: nat
  isLoading :: bool
  claimAll :: "WalletCall list \<Rightarrow> WalletCall list"

section \<open>String utilities (packages/utils/src/string.ts)\<close>

text \<open>
  A JavaScript string is modelled as a \<^typ>\<open>string\<close>, one \<^typ>\<open>char\<close> per code unit, for
  the code units below 256 (U+0000 to U+00FF), and a JavaScript integer number as an
  \<^typ>\<open>int\<close>. The built-in methods the source calls are
  written out with the index arithmetic of the language standard: \<open>slice\<close> counts a negative
  index from the end, \<open>substring\<close> clamps both indices into the string and swaps them when
  they are out of order.
\<close>

definition js_slice :: "string \<Rightarrow> int \<Rightarrow> int \<Rightarrow> string" where
  "js_slice s b e =
     (let len = int (length s);
          lo = (if b < 0 then max (len + b) 0 else min b len);
          hi = (if e < 0 then max (len + e) 0 else min e len)
      in take (nat (hi - lo)) (drop (nat lo) s))"

definition js_substring :: "string \<Rightarrow> int \<Rightarrow> int \<Rightarrow> string" where
  "js_substring s b e =
     (let len = int (length s);
          b' = min (max b 0) len;
          e' = min (max e 0) len;
          lo = min b' e';
          hi = max b' e'
      in take (nat (hi - lo)) (drop (nat lo) s))"

text \<open>What \<open>trim\<close> removes at both ends, the white space and the line terminators of the
  language: among the code units below 256 these are tab, line feed, vertical tab, form
  feed, carriage return, space and the no-break space U+00A0.\<close>

definition is_white_space :: "char \<Rightarrow> bool" where
  "is_white_space c \<longleftrightarrow> (of_char c :: nat) \<in> {9, 10, 11, 12, 13, 32, 160}"

definition js_trim :: "string \<Rightarrow> string" where
  "js_trim s = rev (dropWhile is_white_space (rev (dropWhile is_white_space s)))"

definition is_upper :: "char \<Rightarrow> bool" where
  "is_upper c \<longleftrightarrow> 65 \<le> (of_char c :: nat) \<and> (of_char c :: nat) \<le> 90"

definition is_lower :: "char \<Rightarrow> bool" where
  "is_lower c \<longleftrightarrow> 97 \<le> (of_char c :: nat) \<and> (of_char c :: nat) \<le> 122"

text \<open>\<open>is_upper\<close> and \<open>is_lower\<close> are the character classes \<open>[A-Z]\<close> and \<open>[a-z]\<close> of the regular
  expressions. \<open>toLowerCase\<close> maps more: among the code units below 256 the letters with a
  lower-case form are A to Z and U+00C0 to U+00DE without the multiplication sign U+00D7,
  and the lower-case form of each is 32 code units further.\<close>

definition has_lower_case :: "char \<Rightarrow> bool" where
  "has_lower_case c \<longleftrightarrow>
     is_upper c
     \<or> (192 \<le> (of_char c :: nat) \<and> (of_char c :: nat) \<le> 222 \<and> (of_char c :: nat) \<noteq> 215)"

definition to_lower_char :: "char \<Rightarrow> char" where
  "to_lower_char c = (if has_lower_case c then char_of (of_char c + 32 :: nat) else c)"

definition toLowerCase :: "string \<Rightarrow> string" where
  "toLowerCase s = map to_lower_char s"

subsection \<open>truncate and shorten\<close>

text \<open>\<open>truncate(str, num = 8)\<close>: the second argument is optional.\<close>

definition truncate :: "string \<Rightarrow> int option \<Rightarrow> string" where
  "truncate str num_arg =
     (let num = (case num_arg of None \<Rightarrow> 8 | Some n \<Rightarrow> n)
      in if int (length str) \<le> num then str
         else js_slice str 0 num @ ''...'')"

text \<open>\<open>opts?.prefixLength ?? 6\<close>, \<open>opts?.suffixLength ?? 5\<close> and \<open>opts?.delim ?? "..."\<close>.\<close>

definition opts_prefixLength :: "shorten_opts option \<Rightarrow> int" where
  "opts_prefixLength opts =
     (case Option.bind opts prefixLength of None \<Rightarrow> 6 | Some n \<Rightarrow> n)"

definition opts_suffixLength :: "shorten_opts option \<Rightarrow> int" where
  "opts_suffixLength opts =
     (case Option.bind opts suffixLength of None \<Rightarrow> 5 | Some n \<Rightarrow> n)"

definition opts_delim :: "shorten_opts option \<Rightarrow> string" where
  "opts_delim opts =
     (case Option.bind opts delim of None \<Rightarrow> ''...'' | Some d \<Rightarrow> d)"

definition shorten :: "string \<Rightarrow> shorten_opts option \<Rightarrow> string" where
  "shorten str opts =
     (if str = [] then []
      else if int (length str) \<le> opts_prefixLength opts + opts_suffixLength opts then str
      else
        (let prefix = js_substring str 0 (opts_prefixLength opts);
             suffix = js_substring str (int (length str) - opts_suffixLength opts)
                        (int (length str))
         in prefix @ opts_delim opts @ suffix))"

subsection \<open>normalizeUrl\<close>

text \<open>The three anchored replacements, in the order of the source:
  \<open>/^https?:\/\//\<close>, \<open>/^www\./\<close> and \<open>/\/$/\<close>, each replaced by the empty string.\<close>

definition replace_scheme :: "string \<Rightarrow> string" where
  "replace_scheme url =
     (if prefix ''https://'' url then drop 8 url
      else if prefix ''http://'' url then drop 7 url
      else url)"

definition replace_www :: "string \<Rightarrow> string" where
  "replace_www url = (if prefix ''www.'' url then drop 4 url else url)"

definition replace_trailing_slash :: "string \<Rightarrow> string" where
  "replace_trailing_slash url =
     (if url \<noteq> [] \<and> last url = CHR ''/'' then butlast url else url)"

definition normalizeUrl :: "string \<Rightarrow> string" where
  "normalizeUrl url = replace_trailing_slash (replace_www (replace_scheme url))"

subsection \<open>ellipsisText\<close>

definition ellipsisText :: "string \<Rightarrow> int \<Rightarrow> string" where
  "ellipsisText str maxLength =
     (if str = [] then []
      else
        (let trimmedStr = js_trim str
         in if int (length str) > maxLength
            then js_slice trimmedStr 0 (maxLength - 3) @ ''...''
            else trimmedStr))"

subsection \<open>camelCaseToSnakeCase and camelToKebabCase\<close>

text \<open>\<open>replace(/([a-z])([A-Z])/g, "$1_$2")\<close>: the scan goes from left to right, a match
  consumes both letters, and the next match is looked for behind it.\<close>

fun replace_lower_upper :: "string \<Rightarrow> string" where
  "replace_lower_upper (a # b # rest) =
     (if is_lower a \<and> is_upper b then a # CHR ''_'' # b # replace_lower_upper rest
      else a # replace_lower_upper (b # rest))"
| "replace_lower_upper [a] = [a]"
| "replace_lower_upper [] = []"

definition camelCaseToSnakeCase :: "string \<Rightarrow> string" where
  "camelCaseToSnakeCase input = toLowerCase (replace_lower_upper input)"

text \<open>\<open>replace(/[A-Z]/g, (letter) => `-${letter.toLowerCase()}`)\<close> followed by
  \<open>replace(/^-/, "")\<close>.\<close>

definition replace_upper_dash :: "string \<Rightarrow> string" where
  "replace_upper_dash str =
     concat (map (\<lambda>letter. if is_upper letter then [CHR ''-'', to_lower_char letter]
                            else [letter]) str)"

definition replace_leading_dash :: "string \<Rightarrow> string" where
  "replace_leading_dash str =
     (case str of [] \<Rightarrow> [] | c # rest \<Rightarrow> if c = CHR ''-'' then rest else str)"

definition camelToKebabCase :: "string \<Rightarrow> string" where
  "camelToKebabCase str = replace_leading_dash (replace_upper_dash str)"

subsection \<open>Address validators\<close>

text \<open>
  The decoders belong to external packages and are parameters of the validators: a decoder
  that throws returns \<open>None\<close>, so each \<open>try\<close>/\<open>catch\<close> of the source is a case distinction.
  \<open>fromBase58Check\<close> yields the version byte and the hash, \<open>fromBech32\<close> of the Bitcoin
  package the witness version, the prefix and the data, \<open>fromBech32\<close> of the Cosmos package
  the prefix and the data.
\<close>

datatype BitcoinEnv = Mainnet | Testnet

text \<open>\<open>{version, hash}\<close>, \<open>{version, prefix, data}\<close> and \<open>{prefix, data}\<close>, by position.\<close>

datatype Base58CheckResult = Base58CheckResult nat "nat list"

datatype Bech32Result = Bech32Result nat string "nat list"

datatype CosmosBech32 = CosmosBech32 string "nat list"

text \<open>The version bytes of \<open>bitcoin.networks.bitcoin\<close> and \<open>bitcoin.networks.testnet\<close>,
  as the Bitcoin package declares them.\<close>

definition networks_bitcoin :: Network where
  "networks_bitcoin = \<lparr>pubKeyHash = 0x00, scriptHash = 0x05\<rparr>"

definition networks_testnet :: Network where
  "networks_testnet = \<lparr>pubKeyHash = 0x6f, scriptHash = 0xc4\<rparr>"

definition isBitcoinAddressValid ::
  "(string \<Rightarrow> Base58CheckResult option) \<Rightarrow> (string \<Rightarrow> Bech32Result option)
   \<Rightarrow> string \<Rightarrow> BitcoinEnv \<Rightarrow> bool" where
  "isBitcoinAddressValid fromBase58Check fromBech32 address env =
     (case fromBase58Check address of
        Some (Base58CheckResult version _) \<Rightarrow>
          (let isTestnet = (version = pubKeyHash networks_testnet
                           \<or> version = scriptHash networks_testnet);
               isMainnet = (version = pubKeyHash networks_bitcoin
                           \<or> version = scriptHash networks_bitcoin)
           in if (env = Mainnet \<and> isMainnet) \<or> (env = Testnet \<and> isTestnet) then True
              else False)
      | None \<Rightarrow>
          (case fromBech32 address of
             Some (Bech32Result _ pre _) \<Rightarrow>
               (let isTestnet = (pre = ''tb'' \<or> pre = ''bcrt'');
                    isMainnet = (pre = ''bc'')
                in if (env = Mainnet \<and> isMainnet) \<or> (env = Testnet \<and> isTestnet) then True
                   else False)
           | None \<Rightarrow> False))"

definition isCosmosAddressValid ::
  "(string \<Rightarrow> CosmosBech32 option) \<Rightarrow> string \<Rightarrow> string \<Rightarrow> bool" where
  "isCosmosAddressValid fromBech32 address bech32Prefix =
     (case fromBech32 address of
        Some (CosmosBech32 pre bytes) \<Rightarrow>
          (if pre \<noteq> bech32Prefix then False else length bytes = 20)
      | None \<Rightarrow> False)"

text \<open>A pair of decoders that accept one and the same string in both formats: as
  Base58Check with the version byte 85, which belongs to neither network, and as bech32
  with the prefix \<open>bc\<close>. On it the order in which the validator consults its decoders
  decides the result.\<close>

definition both_formats_fromBase58Check :: "string \<Rightarrow> Base58CheckResult option" where
  "both_formats_fromBase58Check address =
     (if address = ''bc1both'' then Some (Base58CheckResult 85 (replicate 20 0)) else None)"

definition both_formats_fromBech32 :: "string \<Rightarrow> Bech32Result option" where
  "both_formats_fromBech32 address =
     (if address = ''bc1both'' then Some (Bech32Result 1 ''bc'' (replicate 32 0)) else None)"

section \<open>Order-book hooks (packages/web/hooks/limit-orders/use-orderbook.ts)\<close>

text \<open>
  A hook is a function of what its collaborators return during one render: the result of a
  query of the client is a parameter (a function of the input and options the hook hands
  over, where a property depends on them), the feature flag and the wallet account are
  parameters, and a submission to the wallet is appended to the list of submissions.
\<close>

subsection \<open>useOrderbooks and useMakerFee\<close>

definition useOrderbooks :: "Orderbook list UseQueryResult \<Rightarrow> UseOrderbooksResult" where
  "useOrderbooks getPools =
     \<lparr>orderbooks = (case UseQueryResult.data getPools of None \<Rightarrow> [] | Some obs \<Rightarrow> obs),
      UseOrderbooksResult.isLoading = UseQueryResult.isLoading getPools\<rparr>"

text \<open>\<open>getMakerFee.useQuery({osmoAddress}, {enabled})\<close> is a function of the address and of
  the \<open>enabled\<close> option.\<close>

definition useMakerFee ::
  "(string \<Rightarrow> bool \<Rightarrow> MakerFeeData UseQueryResult) \<Rightarrow> string \<Rightarrow> UseMakerFeeResult" where
  "useMakerFee getMakerFee orderbookAddress' =
     (let query = getMakerFee orderbookAddress' (orderbookAddress' \<noteq> []);
          makerFeeData = UseQueryResult.data query;
          fee = (if UseQueryResult.isLoading query then Dec 0
                 else (case Option.bind makerFeeData MakerFeeData.makerFee of
                         None \<Rightarrow> Dec 0 | Some f \<Rightarrow> f))
      in \<lparr>UseMakerFeeResult.makerFee = fee,
          UseMakerFeeResult.isLoading = UseQueryResult.isLoading query,
          UseMakerFeeResult.error = UseQueryResult.error query\<rparr>)"

subsection \<open>useOrderbook\<close>

text \<open>The predicate of \<open>orderbooks.find\<close>: both assets resolved, and the order-book's denoms
  equal to the display or the minimal denom of each.\<close>

definition matches_assets :: "Asset option \<Rightarrow> Asset option \<Rightarrow> Orderbook \<Rightarrow> bool" where
  "matches_assets baseAsset quoteAsset ob =
     (case (baseAsset, quoteAsset) of
        (Some b, Some q) \<Rightarrow>
          (baseDenom ob = coinDenom b \<or> baseDenom ob = coinMinimalDenom b)
          \<and> (quoteDenom ob = coinDenom q \<or> quoteDenom ob = coinMinimalDenom q)
      | _ \<Rightarrow> False)"

text \<open>The \<open>error\<close> memo: \<open>!orderbook.poolId\<close> holds for an absent and for an empty pool id.\<close>

definition orderbook_error ::
  "bool \<Rightarrow> Orderbook option \<Rightarrow> TRPCError option \<Rightarrow> string option" where
  "orderbook_error orderbookLoading ob makerFeeError =
     (if \<not> orderbookLoading
         \<and> (ob = None \<or> Option.bind ob Orderbook.poolId = None
              \<or> Option.bind ob Orderbook.poolId = Some [])
      then Some ''errors.noOrderbook''
      else (case makerFeeError of Some e \<Rightarrow> Some (message e) | None \<Rightarrow> None))"

text \<open>\<open>useSwapAsset\<close> is a hook of another file: it is a parameter, called with the denom and
  the user's assets, and its \<open>asset\<close> is what is returned.\<close>

definition useOrderbook ::
  "Orderbook list UseQueryResult \<Rightarrow> Asset InfiniteData option
   \<Rightarrow> (string \<Rightarrow> Asset list \<Rightarrow> Asset option)
   \<Rightarrow> (string \<Rightarrow> bool \<Rightarrow> MakerFeeData UseQueryResult)
   \<Rightarrow> string \<Rightarrow> string \<Rightarrow> UseOrderbookResult" where
  "useOrderbook getPools selectableAssetPages useSwapAsset getMakerFee baseDenom' quoteDenom' =
     (let obs = orderbooks (useOrderbooks getPools);
          orderbookLoading = UseOrderbooksResult.isLoading (useOrderbooks getPools);
          selectableAssets =
            (case selectableAssetPages of None \<Rightarrow> []
             | Some d \<Rightarrow> concat (map items (pages d)));
          baseAsset = useSwapAsset baseDenom' selectableAssets;
          quoteAsset = useSwapAsset quoteDenom' selectableAssets;
          ob = find (matches_assets baseAsset quoteAsset) obs;
          fee = useMakerFee getMakerFee
                  (case ob of None \<Rightarrow> [] | Some b \<Rightarrow> Orderbook.contractAddress b)
      in \<lparr>orderbook = ob,
          UseOrderbookResult.poolId =
            (case Option.bind ob Orderbook.poolId of None \<Rightarrow> [] | Some p \<Rightarrow> p),
          UseOrderbookResult.contractAddress =
            (case ob of None \<Rightarrow> [] | Some b \<Rightarrow> Orderbook.contractAddress b),
          UseOrderbookResult.makerFee = UseMakerFeeResult.makerFee fee,
          isMakerFeeLoading = UseMakerFeeResult.isLoading fee,
          isOrderbookLoading = orderbookLoading,
          UseOrderbookResult.error =
            orderbook_error orderbookLoading ob (UseMakerFeeResult.error fee)\<rparr>)"

subsection \<open>useOrdersQuery\<close>

text \<open>The address list of the known order-books, as each hook computes it.\<close>

definition addresses_of :: "Orderbook list UseQueryResult \<Rightarrow> string list" where
  "addresses_of getPools = map Orderbook.contractAddress (orderbooks (useOrderbooks getPools))"

text \<open>The default values of the destructured arguments: \<open>pageSize = 10\<close>,
  \<open>refetchInterval = 10000\<close>.\<close>

definition orders_pageSize :: "OrdersQueryArgs \<Rightarrow> int" where
  "orders_pageSize args = (case pageSize args of None \<Rightarrow> 10 | Some n \<Rightarrow> n)"

definition orders_refetchInterval :: "OrdersQueryArgs \<Rightarrow> int" where
  "orders_refetchInterval args =
     (case OrdersQueryArgs.refetchInterval args of None \<Rightarrow> 10000 | Some n \<Rightarrow> n)"

text \<open>The input and the options of the passthrough query and of the node query.\<close>

definition ordersSQSInput :: "OrdersQueryArgs \<Rightarrow> OrdersSQSInput" where
  "ordersSQSInput args =
     \<lparr>OrdersSQSInput.userOsmoAddress = OrdersQueryArgs.userAddress args,
      OrdersSQSInput.limit = orders_pageSize args,
      OrdersSQSInput.filter_by = OrdersQueryArgs.filter_by args\<rparr>"

definition ordersSQSOptions ::
  "bool \<Rightarrow> Orderbook list UseQueryResult \<Rightarrow> OrdersQueryArgs \<Rightarrow> QueryOptions" where
  "ordersSQSOptions sqsActiveOrders getPools args =
     \<lparr>initialCursor = Some 0,
      QueryOptions.refetchInterval = Some (orders_refetchInterval args),
      cacheTime = Some (orders_refetchInterval args),
      staleTime = Some (orders_refetchInterval args),
      enabled = (OrdersQueryArgs.userAddress args \<noteq> []
                 \<and> length (addresses_of getPools) > 0 \<and> sqsActiveOrders),
      refetchOnMount = True,
      keepPreviousData = False,
      abortOnUnmount = True,
      skipBatch = True\<rparr>"

definition ordersNodeInput :: "OrdersQueryArgs \<Rightarrow> OrdersInput" where
  "ordersNodeInput args =
     \<lparr>OrdersInput.userOsmoAddress = OrdersQueryArgs.userAddress args,
      OrdersInput.limit = orders_pageSize args\<rparr>"

definition ordersNodeOptions ::
  "bool \<Rightarrow> Orderbook list UseQueryResult \<Rightarrow> OrdersQueryArgs \<Rightarrow> QueryOptions" where
  "ordersNodeOptions sqsActiveOrders getPools args =
     \<lparr>initialCursor = Some 0,
      QueryOptions.refetchInterval = Some (orders_refetchInterval args),
      cacheTime = Some (orders_refetchInterval args),
      staleTime = Some (orders_refetchInterval args),
      enabled = (OrdersQueryArgs.userAddress args \<noteq> []
                 \<and> length (addresses_of getPools) > 0 \<and> \<not> sqsActiveOrders),
      refetchOnMount = True,
      keepPreviousData = False,
      abortOnUnmount = True,
      skipBatch = True\<rparr>"

definition useOrdersQuery ::
  "bool \<Rightarrow> Orderbook list UseQueryResult
   \<Rightarrow> (OrdersSQSInput \<Rightarrow> QueryOptions \<Rightarrow> ('d, 'f, 'r) UseInfiniteQueryResult)
   \<Rightarrow> (OrdersInput \<Rightarrow> QueryOptions \<Rightarrow> ('d, 'f, 'r) UseInfiniteQueryResult)
   \<Rightarrow> OrdersQueryArgs \<Rightarrow> ('d, 'f, 'r) UseInfiniteQueryResult" where
  "useOrdersQuery sqsActiveOrders getPools getAllOrdersSQS getAllOrders args =
     (let sqs = getAllOrdersSQS (ordersSQSInput args)
                  (ordersSQSOptions sqsActiveOrders getPools args);
          node = getAllOrders (ordersNodeInput args)
                   (ordersNodeOptions sqsActiveOrders getPools args)
      in \<lparr>UseInfiniteQueryResult.data =
            (if sqsActiveOrders then UseInfiniteQueryResult.data sqs
             else UseInfiniteQueryResult.data node),
          UseInfiniteQueryResult.isLoading =
            (if sqsActiveOrders then UseInfiniteQueryResult.isLoading sqs
             else UseInfiniteQueryResult.isLoading node),
          fetchNextPage = (if sqsActiveOrders then fetchNextPage sqs else fetchNextPage node),
          isFetching = (if sqsActiveOrders then isFetching sqs else isFetching node),
          isFetchingNextPage =
            (if sqsActiveOrders then isFetchingNextPage sqs else isFetchingNextPage node),
          hasNextPage = (if sqsActiveOrders then hasNextPage sqs else hasNextPage node),
          refetch = (if sqsActiveOrders then refetch sqs else refetch node),
          isRefetching = (if sqsActiveOrders then isRefetching sqs else isRefetching node)\<rparr>)"

subsection \<open>useClaimableOrdersQuery\<close>

text \<open>\<open>disabled = false\<close> and \<open>refetchInterval = 5000\<close> by default.\<close>

definition claimable_disabled :: "ClaimableOrdersArgs \<Rightarrow> bool" where
  "claimable_disabled args = (case disabled args of None \<Rightarrow> False | Some b \<Rightarrow> b)"

definition claimable_refetchInterval :: "ClaimableOrdersArgs \<Rightarrow> int" where
  "claimable_refetchInterval args =
     (case ClaimableOrdersArgs.refetchInterval args of None \<Rightarrow> 5000 | Some n \<Rightarrow> n)"

definition claimableSQSInput :: "ClaimableOrdersArgs \<Rightarrow> OrdersSQSInput" where
  "claimableSQSInput args =
     \<lparr>OrdersSQSInput.userOsmoAddress = ClaimableOrdersArgs.userAddress args,
      OrdersSQSInput.limit = 100,
      OrdersSQSInput.filter_by = Some Filled\<rparr>"

definition claimableSQSOptions ::
  "bool \<Rightarrow> Orderbook list UseQueryResult \<Rightarrow> ClaimableOrdersArgs \<Rightarrow> QueryOptions" where
  "claimableSQSOptions sqsActiveOrders getPools args =
     \<lparr>initialCursor = Some 0,
      QueryOptions.refetchInterval = Some (claimable_refetchInterval args),
      cacheTime = None,
      staleTime = None,
      enabled = (ClaimableOrdersArgs.userAddress args \<noteq> []
                 \<and> length (addresses_of getPools) > 0
                 \<and> \<not> claimable_disabled args \<and> sqsActiveOrders),
      refetchOnMount = True,
      keepPreviousData = False,
      abortOnUnmount = True,
      skipBatch = True\<rparr>"

definition claimableNodeOptions ::
  "bool \<Rightarrow> Orderbook list UseQueryResult \<Rightarrow> ClaimableOrdersArgs \<Rightarrow> QueryOptions" where
  "claimableNodeOptions sqsActiveOrders getPools args =
     \<lparr>initialCursor = None,
      QueryOptions.refetchInterval = None,
      cacheTime = None,
      staleTime = None,
      enabled = (ClaimableOrdersArgs.userAddress args \<noteq> []
                 \<and> length (addresses_of getPools) > 0
                 \<and> \<not> claimable_disabled args \<and> \<not> sqsActiveOrders),
      refetchOnMount = True,
      keepPreviousData = False,
      abortOnUnmount = True,
      skipBatch = True\<rparr>"

text \<open>The node query takes the user's address alone as its input.\<close>

definition useClaimableOrdersQuery ::
  "bool \<Rightarrow> Orderbook list UseQueryResult
   \<Rightarrow> (OrdersSQSInput \<Rightarrow> QueryOptions \<Rightarrow> (Order InfiniteData, 'f, 'r) UseInfiniteQueryResult)
   \<Rightarrow> (string \<Rightarrow> QueryOptions \<Rightarrow> Order list UseQueryResult)
   \<Rightarrow> ClaimableOrdersArgs \<Rightarrow> UseClaimableOrdersQueryResult" where
  "useClaimableOrdersQuery sqsActiveOrders getPools getAllOrdersSQS getClaimableOrders args =
     (let sqs = getAllOrdersSQS (claimableSQSInput args)
                  (claimableSQSOptions sqsActiveOrders getPools args);
          claimableOrders = UseInfiniteQueryResult.data sqs;
          node = getClaimableOrders (ClaimableOrdersArgs.userAddress args)
                   (claimableNodeOptions sqsActiveOrders getPools args);
          nodeClaimableOrders = UseQueryResult.data node;
          os = (if \<not> sqsActiveOrders then nodeClaimableOrders
                else Some (case claimableOrders of None \<Rightarrow> []
                           | Some d \<Rightarrow> concat (map items (pages d))))
      in \<lparr>UseClaimableOrdersQueryResult.data = os,
          UseClaimableOrdersQueryResult.isLoading =
            (if sqsActiveOrders then UseInfiniteQueryResult.isLoading sqs
             else UseQueryResult.isLoading node)\<rparr>)"

subsection \<open>useOrderbookClaimableOrders and claimAllOrders\<close>

text \<open>The messages \<open>claimAllOrders\<close> builds: \<open>addresses.map(...)\<close> yields nothing for an
  address without an order, and \<open>.filter(Boolean)\<close> drops these entries.\<close>

definition claim_msgs :: "string list \<Rightarrow> Order list \<Rightarrow> ExecuteContractMsg list" where
  "claim_msgs addresses os =
     List.map_filter
       (\<lambda>contractAddress'.
          (let ordersForAddress = filter (\<lambda>ord. orderbookAddress ord = contractAddress') os
           in if length ordersForAddress = 0 then None
              else Some \<lparr>ExecuteContractMsg.contractAddress = contractAddress',
                         msg = \<lparr>batch_claim =
                                 \<lparr>orders = map (\<lambda>ord. [tick_id ord, order_id ord])
                                                ordersForAddress\<rparr>\<rparr>,
                         funds = []\<rparr>))
       addresses"

text \<open>The callback, on the account, the orders and the addresses of its closure and on the
  submissions made so far; it returns the submissions after the call.\<close>

definition claimAllOrders ::
  "Account option \<Rightarrow> Order list option \<Rightarrow> string list \<Rightarrow> WalletCall list \<Rightarrow> WalletCall list"
  where
  "claimAllOrders account os addresses submitted =
     (case (account, os) of
        (Some acc, Some os') \<Rightarrow>
          (let msgs = claim_msgs addresses os'
           in if length msgs > 0
              then submitted @ [SendMultiExecuteContractMsg acc ''executeWasm'' msgs]
              else submitted)
      | _ \<Rightarrow> submitted)"

definition useOrderbookClaimableOrders ::
  "bool \<Rightarrow> Orderbook list UseQueryResult \<Rightarrow> Account option
   \<Rightarrow> (OrdersSQSInput \<Rightarrow> QueryOptions \<Rightarrow> (Order InfiniteData, 'f, 'r) UseInfiniteQueryResult)
   \<Rightarrow> (string \<Rightarrow> QueryOptions \<Rightarrow> Order list UseQueryResult)
   \<Rightarrow> ClaimableOrdersArgs \<Rightarrow> UseOrderbookClaimableOrdersResult" where
  "useOrderbookClaimableOrders sqsActiveOrders getPools account getAllOrdersSQS
     getClaimableOrders args =
     (let addresses = addresses_of getPools;
          query = useClaimableOrdersQuery sqsActiveOrders getPools getAllOrdersSQS
                    getClaimableOrders
                    \<lparr>ClaimableOrdersArgs.userAddress = ClaimableOrdersArgs.userAddress args,
                     disabled = Some (claimable_disabled args),
                     ClaimableOrdersArgs.refetchInterval =
                       Some (claimable_refetchInterval args)\<rparr>;
          os = UseClaimableOrdersQueryResult.data query
      in \<lparr>claimable_orders = (case os of None \<Rightarrow> [] | Some os' \<Rightarrow> os'),
          count = (case os of None \<Rightarrow> 0 | Some os' \<Rightarrow> length os'),
          UseOrderbookClaimableOrdersResult.isLoading =
            UseClaimableOrdersQueryResult.isLoading query,
          claimAll = claimAllOrders account os addresses\<rparr>)"

section \<open>Properties of the string utilities\<close>

subsection \<open>Index arithmetic\<close>

lemma js_slice_0_nonneg: "0 \<le> n \<Longrightarrow> js_slice s 0 n = take (nat n) s"
  by (simp add: js_slice_def Let_def min_def)

lemma js_substring_0_nonneg: "0 \<le> n \<Longrightarrow> js_substring s 0 n = take (nat n) s"
  by (auto simp add: js_substring_def Let_def min_def max_def)

lemma js_substring_suffix:
  "0 \<le> n \<Longrightarrow> n \<le> int (length s) \<Longrightarrow>
   js_substring s (int (length s) - n) (int (length s)) = drop (length s - nat n) s"
  by (auto simp add: js_substring_def Let_def min_def max_def nat_diff_distrib)

lemma length_js_trim_le: "length (js_trim s) \<le> length s"
proof -
  have "length (js_trim s) \<le> length (dropWhile is_white_space s)"
    unfolding js_trim_def using length_dropWhile_le [of is_white_space "rev (dropWhile is_white_space s)"]
    by simp
  also have "\<dots> \<le> length s" by (rule length_dropWhile_le)
  finally show ?thesis .
qed

subsection \<open>truncate and shorten\<close>

text \<open>
  Claim C5, for breakpoints and lengths that are not negative. \<open>truncate\<close> returns the
  string unchanged when its length is at most \<open>num\<close>, and otherwise its first \<open>num\<close>
  characters followed by \<open>...\<close>, so the result has at most \<open>num + 3\<close> characters; without
  a second argument \<open>num\<close> is 8. \<open>shorten\<close> returns the empty string on the empty string,
  the string unchanged when its length is at most \<open>prefixLength + suffixLength\<close>, and
  otherwise its first \<open>prefixLength\<close> characters, the delimiter and its last
  \<open>suffixLength\<close> characters, so the result has at most
  \<open>prefixLength + suffixLength + length delim\<close> characters. The lengths and the delimiter are
  the ones in force, the defaults 6, 5 and \<open>...\<close> included.
\<close>

theorem truncate_shorten_nonneg:
  assumes "0 \<le> num" and "0 \<le> opts_prefixLength opts" and "0 \<le> opts_suffixLength opts"
  shows "truncate str (Some num) =
           (if int (length str) \<le> num then str else take (nat num) str @ ''...'')
       \<and> int (length (truncate str (Some num))) \<le> num + 3
       \<and> truncate str None = truncate str (Some 8)
       \<and> shorten str opts =
           (if str = [] then []
            else if int (length str) \<le> opts_prefixLength opts + opts_suffixLength opts then str
            else take (nat (opts_prefixLength opts)) str @ opts_delim opts
                 @ drop (length str - nat (opts_suffixLength opts)) str)
       \<and> int (length (shorten str opts))
           \<le> opts_prefixLength opts + opts_suffixLength opts + int (length (opts_delim opts))"
proof -
  have t: "truncate str (Some num) =
           (if int (length str) \<le> num then str else take (nat num) str @ ''...'')"
    using assms(1) by (simp add: truncate_def js_slice_0_nonneg)
  have tl: "int (length (truncate str (Some num))) \<le> num + 3"
    unfolding t using assms(1) by auto
  have td: "truncate str None = truncate str (Some 8)"
    by (simp add: truncate_def)
  have s: "shorten str opts =
           (if str = [] then []
            else if int (length str) \<le> opts_prefixLength opts + opts_suffixLength opts then str
            else take (nat (opts_prefixLength opts)) str @ opts_delim opts
                 @ drop (length str - nat (opts_suffixLength opts)) str)"
    using assms(2,3) by (simp add: shorten_def Let_def js_substring_0_nonneg js_substring_suffix)
  have sl: "int (length (shorten str opts))
           \<le> opts_prefixLength opts + opts_suffixLength opts + int (length (opts_delim opts))"
    unfolding s using assms(2,3) by auto
  from t tl td s sl show ?thesis by blast
qed

theorem truncate_shorten_nonneg_witness:
  "truncate ''osmo1qwertyuiop'' (Some 4) = ''osmo...''
   \<and> shorten ''osmo1qwertyuiop'' None = ''osmo1q...yuiop''"
  using truncate_shorten_nonneg [of 4 None "''osmo1qwertyuiop''"]
  by (simp add: opts_prefixLength_def opts_suffixLength_def opts_delim_def)

text \<open>With a negative breakpoint \<open>slice\<close> counts from the end of the string: the result is
  neither the first \<open>num\<close> characters nor within \<open>num + 3\<close> characters.\<close>

theorem truncate_negative_counterexample:
  "truncate ''abcd'' (Some (- 1)) = ''abc...''
   \<and> \<not> int (length (truncate ''abcd'' (Some (- 1)))) \<le> - 1 + 3"
  by (simp add: truncate_def js_slice_def)

subsection \<open>ellipsisText\<close>

lemma js_slice_0_prefix: "prefix (js_slice s 0 e) s"
  by (simp add: js_slice_def Let_def take_is_prefix)

lemma length_js_slice_0_le: "0 \<le> e \<Longrightarrow> int (length (js_slice s 0 e)) \<le> e"
  by (simp add: js_slice_0_nonneg)

text \<open>
  Claim C6, with the bound for \<open>maxLength\<close> of at least 3. On the empty string
  \<open>ellipsisText\<close> returns the empty string. When the string is not empty and longer than
  \<open>maxLength\<close>, the result is a prefix of the trimmed string, the slice up to
  \<open>maxLength - 3\<close>, followed by \<open>...\<close>. When the string is not longer than \<open>maxLength\<close> the
  result is the trimmed string. For \<open>maxLength\<close> of at least 3 the result has at most
  \<open>maxLength\<close> characters in every case, and the prefix of a longer string is the first
  \<open>maxLength - 3\<close> characters of the trimmed string.
\<close>

theorem ellipsisText_bounded:
  "(str = [] \<longrightarrow> ellipsisText str maxLength = [])
   \<and> (str \<noteq> [] \<and> int (length str) > maxLength \<longrightarrow>
        ellipsisText str maxLength = js_slice (js_trim str) 0 (maxLength - 3) @ ''...''
        \<and> prefix (js_slice (js_trim str) 0 (maxLength - 3)) (js_trim str))
   \<and> (int (length str) \<le> maxLength \<longrightarrow> ellipsisText str maxLength = js_trim str)
   \<and> (3 \<le> maxLength \<longrightarrow>
        int (length (ellipsisText str maxLength)) \<le> maxLength
        \<and> (int (length str) > maxLength \<longrightarrow>
             ellipsisText str maxLength
               = take (nat (maxLength - 3)) (js_trim str) @ ''...''))"
proof (intro conjI impI)
  show "ellipsisText str maxLength = []" if "str = []"
    using that by (simp add: ellipsisText_def)
next
  assume long: "str \<noteq> [] \<and> int (length str) > maxLength"
  then show "ellipsisText str maxLength = js_slice (js_trim str) 0 (maxLength - 3) @ ''...''"
    by (simp add: ellipsisText_def Let_def)
  show "prefix (js_slice (js_trim str) 0 (maxLength - 3)) (js_trim str)"
    by (rule js_slice_0_prefix)
next
  assume short: "int (length str) \<le> maxLength"
  then show "ellipsisText str maxLength = js_trim str"
    by (simp add: ellipsisText_def Let_def js_trim_def)
next
  assume m: "3 \<le> maxLength"
  show "int (length (ellipsisText str maxLength)) \<le> maxLength"
  proof (cases "int (length str) > maxLength")
    case True
    then have ne: "str \<noteq> []" using m by auto
    have "int (length (js_slice (js_trim str) 0 (maxLength - 3))) \<le> maxLength - 3"
      using m by (intro length_js_slice_0_le) simp
    with True ne show ?thesis by (simp add: ellipsisText_def Let_def)
  next
    case False
    then have "ellipsisText str maxLength = js_trim str"
      by (simp add: ellipsisText_def Let_def js_trim_def)
    with False length_js_trim_le [of str] show ?thesis by simp
  qed
next
  assume m: "3 \<le> maxLength" and long: "int (length str) > maxLength"
  then have ne: "str \<noteq> []" by auto
  from m have "js_slice (js_trim str) 0 (maxLength - 3) = take (nat (maxLength - 3)) (js_trim str)"
    by (intro js_slice_0_nonneg) simp
  with long ne show "ellipsisText str maxLength
               = take (nat (maxLength - 3)) (js_trim str) @ ''...''"
    by (simp add: ellipsisText_def Let_def)
qed

text \<open>Two instances: a string longer than the bound, and a string that begins with a
  no-break space.\<close>

theorem ellipsisText_bounded_witness:
  "ellipsisText '' limit order '' 8 = ''limit...''
   \<and> int (length (ellipsisText '' limit order '' 8)) \<le> 8
   \<and> ellipsisText (CHR 0xA0 # ''ab'') 10 = ''ab''"
  using ellipsisText_bounded [where str = "'' limit order ''" and maxLength = 8]
        ellipsisText_bounded [where str = "CHR 0xA0 # ''ab''" and maxLength = 10]
  by (simp add: js_trim_def is_white_space_def js_slice_0_nonneg)

text \<open>Below 3 the end index \<open>maxLength - 3\<close> is negative and counts from the end of the
  string: the result is longer than \<open>maxLength\<close>.\<close>

theorem ellipsisText_small_maxLength_counterexample:
  "ellipsisText ''abcdef'' 2 = ''abcde...''
   \<and> \<not> int (length (ellipsisText ''abcdef'' 2)) \<le> 2"
  by (simp add: ellipsisText_def js_trim_def js_slice_def is_white_space_def Let_def)

subsection \<open>normalizeUrl\<close>

lemma replace_scheme_http: "replace_scheme (''http://'' @ rest) = rest"
  by (simp add: replace_scheme_def)

lemma replace_scheme_https: "replace_scheme (''https://'' @ rest) = rest"
  by (simp add: replace_scheme_def)

lemma replace_www_www: "replace_www (''www.'' @ rest) = rest"
  by (simp add: replace_www_def)

lemma replace_trailing_slash_snoc: "replace_trailing_slash (body @ ''/'') = body"
  by (simp add: replace_trailing_slash_def)

lemma replace_trailing_slash_none:
  "\<not> suffix ''/'' body \<Longrightarrow> replace_trailing_slash body = body"
  by (cases body rule: rev_cases) (auto simp add: replace_trailing_slash_def)

lemma prefix_snoc_slash:
  assumes "prefix p (body @ ''/'')" and "\<not> prefix p body" and "length p \<ge> 2"
    and "last (butlast p) = CHR ''/''"
  shows "suffix ''/'' body"
proof -
  from assms(1,2) have "p = body @ ''/''" by simp
  then have b: "body = butlast p" by simp
  have "butlast p \<noteq> []" using assms(3) by (cases p rule: rev_cases) auto
  then have "butlast p = butlast (butlast p) @ [last (butlast p)]" by simp
  then show ?thesis unfolding b using assms(4) by (metis suffixI)
qed

lemma no_scheme_body_slash:
  assumes "\<not> prefix ''http://'' body" "\<not> prefix ''https://'' body" "\<not> suffix ''/'' body"
    and "slash \<in> {[], ''/''}"
  shows "replace_scheme (body @ slash) = body @ slash"
proof -
  have "\<not> prefix ''http://'' (body @ slash)"
    using assms prefix_snoc_slash [of "''http://''" body] by auto
  moreover have "\<not> prefix ''https://'' (body @ slash)"
    using assms prefix_snoc_slash [of "''https://''" body] by auto
  ultimately show ?thesis by (simp add: replace_scheme_def)
qed

lemma no_www_body_slash:
  assumes "\<not> prefix ''www.'' body" and "slash \<in> {[], ''/''}"
  shows "replace_www (body @ slash) = body @ slash"
proof -
  have "\<not> prefix ''www.'' (body @ slash)"
    using assms by auto
  then show ?thesis by (simp add: replace_www_def)
qed

lemma strip_slash:
  assumes "\<not> suffix ''/'' body" and "slash \<in> {[], ''/''}"
  shows "replace_trailing_slash (body @ slash) = body"
  using assms replace_trailing_slash_snoc replace_trailing_slash_none by auto

text \<open>
  Claim C7, for an input with at most one scheme, one \<open>www.\<close> and one trailing slash. Let
  the input be an optional scheme \<open>http://\<close> or \<open>https://\<close>, an optional \<open>www.\<close>, a body and
  an optional \<open>/\<close>, where the body begins with neither scheme nor with \<open>www.\<close> and does not
  end with \<open>/\<close>. Then \<open>normalizeUrl\<close> returns the body: its result begins with neither
  scheme nor with \<open>www.\<close> and does not end with \<open>/\<close>.
\<close>

theorem normalizeUrl_strips:
  assumes "scheme \<in> {[], ''http://'', ''https://''}"
    and "www \<in> {[], ''www.''}"
    and "slash \<in> {[], ''/''}"
    and "\<not> prefix ''http://'' body" and "\<not> prefix ''https://'' body"
    and "\<not> prefix ''www.'' body" and "\<not> suffix ''/'' body"
  shows "normalizeUrl (scheme @ www @ body @ slash) = body
       \<and> \<not> prefix ''http://'' (normalizeUrl (scheme @ www @ body @ slash))
       \<and> \<not> prefix ''https://'' (normalizeUrl (scheme @ www @ body @ slash))
       \<and> \<not> prefix ''www.'' (normalizeUrl (scheme @ www @ body @ slash))
       \<and> \<not> suffix ''/'' (normalizeUrl (scheme @ www @ body @ slash))"
proof -
  have s: "replace_scheme (scheme @ www @ body @ slash) = www @ body @ slash"
  proof (cases "scheme = []")
    case True
    show ?thesis
    proof (cases "www = []")
      case True
      with \<open>scheme = []\<close> show ?thesis using no_scheme_body_slash [OF assms(4,5,7,3)] by simp
    next
      case False
      with assms(2) have "www = ''www.''" by simp
      with \<open>scheme = []\<close> show ?thesis by (simp add: replace_scheme_def)
    qed
  next
    case False
    with assms(1) show ?thesis
      using replace_scheme_http replace_scheme_https by auto
  qed
  have w: "replace_www (www @ body @ slash) = body @ slash"
  proof (cases "www = []")
    case True
    then show ?thesis using no_www_body_slash [OF assms(6,3)] by simp
  next
    case False
    with assms(2) show ?thesis using replace_www_www by auto
  qed
  have n: "normalizeUrl (scheme @ www @ body @ slash) = body"
    unfolding normalizeUrl_def s w by (rule strip_slash [OF assms(7,3)])
  show ?thesis unfolding n using assms(4-7) by simp
qed

theorem normalizeUrl_strips_witness:
  "normalizeUrl ''https://www.example.com/'' = ''example.com''"
  using normalizeUrl_strips [of "''https://''" "''www.''" "''/''" "''example.com''"]
  by (simp add: suffix_def)

text \<open>Each replacement removes one occurrence: a repeated \<open>www.\<close> and a doubled trailing
  slash are left in the result.\<close>

theorem normalizeUrl_repeated_counterexample:
  "normalizeUrl ''www.www.example.com//'' = ''www.example.com/''
   \<and> prefix ''www.'' (normalizeUrl ''www.www.example.com//'')
   \<and> suffix ''/'' (normalizeUrl ''www.www.example.com//'')"
  by (simp add: normalizeUrl_def replace_scheme_def replace_www_def
        replace_trailing_slash_def suffix_def)

subsection \<open>camelCaseToSnakeCase and camelToKebabCase\<close>

lemma of_char_to_lower_char:
  "has_lower_case c \<Longrightarrow> (of_char (to_lower_char c) :: nat) = of_char c + 32"
proof -
  assume h: "has_lower_case c"
  then have "(of_char c :: nat) \<le> 222" by (auto simp add: has_lower_case_def is_upper_def)
  then have "((of_char c :: nat) + 32) mod 256 = of_char c + 32" by simp
  with h show ?thesis by (simp add: to_lower_char_def)
qed

lemma upper_has_lower_case: "is_upper c \<Longrightarrow> has_lower_case c"
  by (simp add: has_lower_case_def)

lemma not_upper_to_lower_char: "\<not> is_upper (to_lower_char c)"
proof (cases "has_lower_case c")
  case True
  then have "65 \<le> (of_char c :: nat)" by (auto simp add: has_lower_case_def is_upper_def)
  with of_char_to_lower_char [OF True] show ?thesis by (simp add: is_upper_def)
next
  case False
  then have "\<not> is_upper c" using upper_has_lower_case by blast
  with False show ?thesis by (simp add: to_lower_char_def)
qed

lemma no_lower_case_to_lower_char: "\<not> has_lower_case (to_lower_char c)"
proof (cases "has_lower_case c")
  case True
  note e = of_char_to_lower_char [OF True]
  show ?thesis
  proof (cases "is_upper c")
    case True
    then have "97 \<le> (of_char (to_lower_char c) :: nat)"
      and "(of_char (to_lower_char c) :: nat) \<le> 122"
      using e by (simp_all add: is_upper_def)
    then show ?thesis by (simp add: has_lower_case_def is_upper_def)
  next
    case False
    with True have "192 \<le> (of_char c :: nat)" by (simp add: has_lower_case_def)
    then have "224 \<le> (of_char (to_lower_char c) :: nat)" using e by simp
    then show ?thesis by (simp add: has_lower_case_def is_upper_def)
  qed
next
  case False
  then show ?thesis by (simp add: to_lower_char_def)
qed

lemma to_lower_char_idem: "to_lower_char (to_lower_char c) = to_lower_char c"
  using no_lower_case_to_lower_char [of c] by (simp add: to_lower_char_def [of "to_lower_char c"])

lemma dash_not_upper: "\<not> is_upper (CHR ''-'')"
  by (simp add: is_upper_def)

lemma to_lower_char_not_dash: "is_upper c \<Longrightarrow> to_lower_char c \<noteq> CHR ''-''"
proof
  assume u: "is_upper c" and e: "to_lower_char c = CHR ''-''"
  from of_char_to_lower_char [OF upper_has_lower_case [OF u]]
  have "(of_char (CHR ''-'') :: nat) = of_char c + 32"
    unfolding e .
  with u show False by (simp add: is_upper_def)
qed

lemma no_upper_toLowerCase: "\<forall>c \<in> set (toLowerCase s). \<not> is_upper c"
  by (simp add: toLowerCase_def not_upper_to_lower_char)

lemma toLowerCase_idem: "toLowerCase (toLowerCase s) = toLowerCase s"
  by (induction s) (simp_all add: toLowerCase_def to_lower_char_idem)

text \<open>The letters beyond ASCII: U+00C9 goes to U+00E9, the multiplication sign stays.\<close>

lemma toLowerCase_beyond_ascii:
  "toLowerCase [CHR 0xC9, CHR ''A'', CHR 0xD7, CHR 0xDE] = [CHR 0xE9, CHR ''a'', CHR 0xD7, CHR 0xFE]"
  by code_simp

lemma replace_lower_upper_id:
  "\<forall>c \<in> set s. \<not> is_upper c \<Longrightarrow> replace_lower_upper s = s"
  by (induction s rule: replace_lower_upper.induct) auto

lemma snake_idem: "camelCaseToSnakeCase (camelCaseToSnakeCase s) = camelCaseToSnakeCase s"
proof -
  let ?t = "toLowerCase (replace_lower_upper s)"
  have n: "\<forall>c \<in> set ?t. \<not> is_upper c" by (rule no_upper_toLowerCase)
  have "replace_lower_upper ?t = ?t" by (rule replace_lower_upper_id [OF n])
  moreover have "toLowerCase ?t = ?t" by (rule toLowerCase_idem)
  ultimately show ?thesis unfolding camelCaseToSnakeCase_def by simp
qed

lemma replace_upper_dash_Cons:
  "replace_upper_dash (c # t) =
     (if is_upper c then CHR ''-'' # to_lower_char c # replace_upper_dash t
      else c # replace_upper_dash t)"
  by (simp add: replace_upper_dash_def)

lemma replace_upper_dash_Nil: "replace_upper_dash [] = []"
  by (simp add: replace_upper_dash_def)

lemma no_upper_replace_upper_dash: "\<forall>c \<in> set (replace_upper_dash s). \<not> is_upper c"
proof (induction s)
  case Nil
  show ?case by (simp add: replace_upper_dash_Nil)
next
  case (Cons a s)
  then show ?case
    by (simp add: replace_upper_dash_Cons not_upper_to_lower_char dash_not_upper)
qed

lemma replace_upper_dash_id:
  "\<forall>c \<in> set s. \<not> is_upper c \<Longrightarrow> replace_upper_dash s = s"
  by (induction s) (simp_all add: replace_upper_dash_Cons replace_upper_dash_Nil)

lemma set_replace_leading_dash: "set (replace_leading_dash s) \<subseteq> set s"
  by (cases s) (auto simp add: replace_leading_dash_def)

lemma no_upper_kebab: "\<forall>c \<in> set (camelToKebabCase s). \<not> is_upper c"
  unfolding camelToKebabCase_def
  using no_upper_replace_upper_dash [of s] set_replace_leading_dash [of "replace_upper_dash s"]
  by blast

lemma kebab_twice: "camelToKebabCase (camelToKebabCase s) = replace_leading_dash (camelToKebabCase s)"
  unfolding camelToKebabCase_def [of "camelToKebabCase s"]
  using replace_upper_dash_id [OF no_upper_kebab [of s]] by simp

lemma replace_leading_dash_fix:
  "replace_leading_dash t = t \<longleftrightarrow> \<not> prefix ''-'' t"
proof (cases t)
  case Nil
  then show ?thesis by (simp add: replace_leading_dash_def)
next
  case (Cons c rest)
  have "rest \<noteq> c # rest" by simp
  then show ?thesis using Cons by (auto simp add: replace_leading_dash_def)
qed

lemma prefix_dash_replace_upper_dash:
  "prefix ''-'' (replace_upper_dash t) \<longleftrightarrow>
     (\<exists>c rest. t = c # rest \<and> (c = CHR ''-'' \<or> is_upper c))"
  by (cases t) (auto simp add: replace_upper_dash_Cons replace_upper_dash_Nil)

lemma kebab_leading_dash:
  "prefix ''-'' (camelToKebabCase s) \<longleftrightarrow>
     (\<exists>c rest. s = CHR ''-'' # c # rest \<and> (c = CHR ''-'' \<or> is_upper c))"
proof (cases s)
  case Nil
  then show ?thesis
    by (simp add: camelToKebabCase_def replace_upper_dash_Nil replace_leading_dash_def)
next
  case (Cons a t)
  show ?thesis
  proof (cases "is_upper a")
    case True
    then have "a \<noteq> CHR ''-''" using dash_not_upper by auto
    with True Cons to_lower_char_not_dash [OF True] show ?thesis
      by (simp add: camelToKebabCase_def replace_upper_dash_Cons replace_leading_dash_def)
  next
    case False
    show ?thesis
    proof (cases "a = CHR ''-''")
      case True
      with False Cons prefix_dash_replace_upper_dash [of t] show ?thesis
        by (simp add: camelToKebabCase_def replace_upper_dash_Cons replace_leading_dash_def)
    next
      case False
      with \<open>\<not> is_upper a\<close> Cons show ?thesis
        by (simp add: camelToKebabCase_def replace_upper_dash_Cons replace_leading_dash_def)
    qed
  qed
qed

text \<open>
  Claim C8, with the inputs on which the second function is stable. For every string,
  \<open>camelCaseToSnakeCase\<close> applied to its own result returns that result. \<open>camelToKebabCase\<close>
  applied to its own result returns that result exactly when the string does not begin
  with a dash followed by a second dash or by an upper-case letter A to Z.
\<close>

theorem case_conversion_idempotence:
  "camelCaseToSnakeCase (camelCaseToSnakeCase s) = camelCaseToSnakeCase s
   \<and> (camelToKebabCase (camelToKebabCase s) = camelToKebabCase s
        \<longleftrightarrow> \<not> (\<exists>c rest. s = CHR ''-'' # c # rest \<and> (c = CHR ''-'' \<or> is_upper c)))"
  using snake_idem kebab_twice replace_leading_dash_fix kebab_leading_dash by simp

theorem case_conversion_idempotence_witness:
  "camelCaseToSnakeCase (camelCaseToSnakeCase ''sqsActiveOrders'')
     = camelCaseToSnakeCase ''sqsActiveOrders''
   \<and> camelToKebabCase (camelToKebabCase ''sqsActiveOrders'')
     = camelToKebabCase ''sqsActiveOrders''
   \<and> camelCaseToSnakeCase (camelCaseToSnakeCase [CHR 0xC9, CHR ''t'', CHR 0xC9])
     = camelCaseToSnakeCase [CHR 0xC9, CHR ''t'', CHR 0xC9]"
  using case_conversion_idempotence [of "''sqsActiveOrders''"]
        case_conversion_idempotence [of "[CHR 0xC9, CHR ''t'', CHR 0xC9]"]
  by simp

text \<open>Only one leading dash is removed by a call: the name of a custom property loses a
  dash at the first call and the other at the second.\<close>

theorem camelToKebabCase_not_idempotent_counterexample:
  "camelToKebabCase ''--mainColor'' = ''-main-color''
   \<and> camelToKebabCase (camelToKebabCase ''--mainColor'') = ''main-color''"
  by code_simp

subsection \<open>Address validators\<close>

text \<open>The Bitcoin validator consults the bech32 decoder only when the Base58Check decoder
  throws: a string that the Base58Check decoder accepts is judged by its version byte
  alone.\<close>

lemma isBitcoinAddressValid_base58:
  "fromBase58Check address = Some (Base58CheckResult version bytes) \<Longrightarrow>
   isBitcoinAddressValid fromBase58Check fromBech32 address env
     = (env = Mainnet \<and> (version = pubKeyHash networks_bitcoin
                          \<or> version = scriptHash networks_bitcoin)
        \<or> env = Testnet \<and> (version = pubKeyHash networks_testnet
                            \<or> version = scriptHash networks_testnet))"
  by (simp add: isBitcoinAddressValid_def Let_def)

lemma isBitcoinAddressValid_bech32:
  "fromBase58Check address = None \<Longrightarrow>
   fromBech32 address = Some (Bech32Result version pre bytes) \<Longrightarrow>
   isBitcoinAddressValid fromBase58Check fromBech32 address env
     = (env = Mainnet \<and> pre = ''bc'' \<or> env = Testnet \<and> (pre = ''tb'' \<or> pre = ''bcrt''))"
  by (simp add: isBitcoinAddressValid_def Let_def)

lemma isBitcoinAddressValid_undecodable:
  "fromBase58Check address = None \<Longrightarrow> fromBech32 address = None \<Longrightarrow>
   \<not> isBitcoinAddressValid fromBase58Check fromBech32 address env"
  by (simp add: isBitcoinAddressValid_def)

lemma isCosmosAddressValid_iff:
  "isCosmosAddressValid cosmosFromBech32 address bech32Prefix
     = (\<exists>bytes. cosmosFromBech32 address = Some (CosmosBech32 bech32Prefix bytes)
                \<and> length bytes = 20)"
  by (auto simp add: isCosmosAddressValid_def split: option.splits CosmosBech32.splits)

text \<open>
  Claim C4, with the order of the two Bitcoin decoders. The decoders are those of the
  external packages, a decoder that throws being one that returns nothing; each validator
  returns a boolean for every string. \<open>isCosmosAddressValid\<close> holds exactly when the string
  decodes as bech32 with the given prefix and 20 bytes of data. \<open>isBitcoinAddressValid\<close>
  for the main network holds exactly when the string decodes as Base58Check with the
  public-key-hash or the script-hash version byte of the main network, or does not decode
  as Base58Check and decodes as bech32 with prefix \<open>bc\<close>; for the test network, exactly
  when it decodes as Base58Check with a version byte of the test network, or does not
  decode as Base58Check and decodes as bech32 with prefix \<open>tb\<close> or \<open>bcrt\<close>. A string that
  no decoder accepts is rejected.
\<close>

theorem address_validators:
  "isCosmosAddressValid cosmosFromBech32 address bech32Prefix
     = (\<exists>bytes. cosmosFromBech32 address = Some (CosmosBech32 bech32Prefix bytes)
                \<and> length bytes = 20)
   \<and> isBitcoinAddressValid fromBase58Check fromBech32 address Mainnet
     = ((\<exists>version bytes. fromBase58Check address = Some (Base58CheckResult version bytes)
            \<and> (version = pubKeyHash networks_bitcoin \<or> version = scriptHash networks_bitcoin))
        \<or> (fromBase58Check address = None
            \<and> (\<exists>version bytes. fromBech32 address = Some (Bech32Result version ''bc'' bytes))))
   \<and> isBitcoinAddressValid fromBase58Check fromBech32 address Testnet
     = ((\<exists>version bytes. fromBase58Check address = Some (Base58CheckResult version bytes)
            \<and> (version = pubKeyHash networks_testnet \<or> version = scriptHash networks_testnet))
        \<or> (fromBase58Check address = None
            \<and> (\<exists>version bytes. fromBech32 address = Some (Bech32Result version ''tb'' bytes)
                                \<or> fromBech32 address = Some (Bech32Result version ''bcrt'' bytes))))
   \<and> (cosmosFromBech32 address = None
        \<longrightarrow> \<not> isCosmosAddressValid cosmosFromBech32 address bech32Prefix)
   \<and> (fromBase58Check address = None \<and> fromBech32 address = None
        \<longrightarrow> \<not> isBitcoinAddressValid fromBase58Check fromBech32 address Mainnet
            \<and> \<not> isBitcoinAddressValid fromBase58Check fromBech32 address Testnet)"
proof (intro conjI)
  show "isCosmosAddressValid cosmosFromBech32 address bech32Prefix
     = (\<exists>bytes. cosmosFromBech32 address = Some (CosmosBech32 bech32Prefix bytes)
                \<and> length bytes = 20)"
    by (rule isCosmosAddressValid_iff)
  show "cosmosFromBech32 address = None
        \<longrightarrow> \<not> isCosmosAddressValid cosmosFromBech32 address bech32Prefix"
    by (simp add: isCosmosAddressValid_iff)
  show "fromBase58Check address = None \<and> fromBech32 address = None
        \<longrightarrow> \<not> isBitcoinAddressValid fromBase58Check fromBech32 address Mainnet
            \<and> \<not> isBitcoinAddressValid fromBase58Check fromBech32 address Testnet"
    by (simp add: isBitcoinAddressValid_undecodable)
next
  show "isBitcoinAddressValid fromBase58Check fromBech32 address Mainnet
     = ((\<exists>version bytes. fromBase58Check address = Some (Base58CheckResult version bytes)
            \<and> (version = pubKeyHash networks_bitcoin \<or> version = scriptHash networks_bitcoin))
        \<or> (fromBase58Check address = None
            \<and> (\<exists>version bytes. fromBech32 address = Some (Bech32Result version ''bc'' bytes))))"
  proof (cases "fromBase58Check address")
    case (Some decoded)
    obtain version bytes where d: "decoded = Base58CheckResult version bytes"
      by (cases decoded)
    with Some isBitcoinAddressValid_base58 [of fromBase58Check address version bytes]
    show ?thesis by simp
  next
    case None
    show ?thesis
    proof (cases "fromBech32 address")
      case (Some decoded)
      obtain version pre bytes where d: "decoded = Bech32Result version pre bytes"
        by (cases decoded)
      with None Some isBitcoinAddressValid_bech32 [of fromBase58Check address fromBech32]
      show ?thesis by simp
    next
      case n: None
      with None isBitcoinAddressValid_undecodable [of fromBase58Check address fromBech32]
      show ?thesis by simp
    qed
  qed
next
  show "isBitcoinAddressValid fromBase58Check fromBech32 address Testnet
     = ((\<exists>version bytes. fromBase58Check address = Some (Base58CheckResult version bytes)
            \<and> (version = pubKeyHash networks_testnet \<or> version = scriptHash networks_testnet))
        \<or> (fromBase58Check address = None
            \<and> (\<exists>version bytes. fromBech32 address = Some (Bech32Result version ''tb'' bytes)
                                \<or> fromBech32 address = Some (Bech32Result version ''bcrt'' bytes))))"
  proof (cases "fromBase58Check address")
    case (Some decoded)
    obtain version bytes where d: "decoded = Base58CheckResult version bytes"
      by (cases decoded)
    with Some isBitcoinAddressValid_base58 [of fromBase58Check address version bytes]
    show ?thesis by simp
  next
    case None
    show ?thesis
    proof (cases "fromBech32 address")
      case (Some decoded)
      obtain version pre bytes where d: "decoded = Bech32Result version pre bytes"
        by (cases decoded)
      with None Some isBitcoinAddressValid_bech32 [of fromBase58Check address fromBech32]
      show ?thesis by auto
    next
      case n: None
      with None isBitcoinAddressValid_undecodable [of fromBase58Check address fromBech32]
      show ?thesis by simp
    qed
  qed
qed

theorem address_validators_witness:
  "isCosmosAddressValid (\<lambda>s. Some (CosmosBech32 ''osmo'' (replicate 20 0))) ''osmo1sample'' ''osmo''
   \<and> \<not> isCosmosAddressValid (\<lambda>s. None) ''sample'' ''osmo''
   \<and> \<not> isBitcoinAddressValid (\<lambda>s. None) (\<lambda>s. None) ''sample'' Mainnet
   \<and> isBitcoinAddressValid (\<lambda>s. Some (Base58CheckResult 5 (replicate 20 0))) (\<lambda>s. None)
        ''3sample'' Mainnet
   \<and> isBitcoinAddressValid (\<lambda>s. None) (\<lambda>s. Some (Bech32Result 0 ''tb'' (replicate 20 0)))
        ''tb1sample'' Testnet"
  using address_validators
          [of "\<lambda>s. Some (CosmosBech32 ''osmo'' (replicate 20 0))" "''osmo1sample''" "''osmo''"
              "\<lambda>s. None" "\<lambda>s. None"]
        address_validators
          [of "\<lambda>s. None" "''sample''" "''osmo''" "\<lambda>s. None" "\<lambda>s. None"]
        address_validators
          [of "\<lambda>s. None" "''3sample''" "''osmo''"
              "\<lambda>s. Some (Base58CheckResult 5 (replicate 20 0))" "\<lambda>s. None"]
        address_validators
          [of "\<lambda>s. None" "''tb1sample''" "''osmo''" "\<lambda>s. None"
              "\<lambda>s. Some (Bech32Result 0 ''tb'' (replicate 20 0))"]
  by (simp add: networks_bitcoin_def)

text \<open>A string that both decoders accept is judged by its Base58Check version byte alone:
  it decodes as bech32 with prefix \<open>bc\<close> and is rejected for the main network.\<close>

theorem bitcoin_both_formats_counterexample:
  "both_formats_fromBase58Check ''bc1both'' = Some (Base58CheckResult 85 (replicate 20 0))
   \<and> both_formats_fromBech32 ''bc1both'' = Some (Bech32Result 1 ''bc'' (replicate 32 0))
   \<and> \<not> isBitcoinAddressValid both_formats_fromBase58Check both_formats_fromBech32
          ''bc1both'' Mainnet"
  by (simp add: isBitcoinAddressValid_def both_formats_fromBase58Check_def
        both_formats_fromBech32_def networks_bitcoin_def)

section \<open>Properties of the order-book hooks\<close>

subsection \<open>useMakerFee\<close>

text \<open>
  Claim C9. For every order-book address the maker fee that \<open>useMakerFee\<close> returns is a
  decimal: it is \<open>Dec 0\<close> while the query is loading, \<open>Dec 0\<close> when the query has loaded
  and its data is absent or carries no maker fee, and otherwise the maker fee of the data,
  unchanged.
\<close>

theorem useMakerFee_never_absent:
  "(UseQueryResult.isLoading (getMakerFee a (a \<noteq> []))
      \<longrightarrow> UseMakerFeeResult.makerFee (useMakerFee getMakerFee a) = Dec 0)
   \<and> (\<not> UseQueryResult.isLoading (getMakerFee a (a \<noteq> []))
        \<and> (UseQueryResult.data (getMakerFee a (a \<noteq> [])) = None
            \<or> (\<exists>d. UseQueryResult.data (getMakerFee a (a \<noteq> [])) = Some d
                    \<and> MakerFeeData.makerFee d = None))
      \<longrightarrow> UseMakerFeeResult.makerFee (useMakerFee getMakerFee a) = Dec 0)
   \<and> (\<forall>d fee. \<not> UseQueryResult.isLoading (getMakerFee a (a \<noteq> []))
        \<and> UseQueryResult.data (getMakerFee a (a \<noteq> [])) = Some d
        \<and> MakerFeeData.makerFee d = Some fee
      \<longrightarrow> UseMakerFeeResult.makerFee (useMakerFee getMakerFee a) = fee)"
  by (auto simp add: useMakerFee_def Let_def)

theorem useMakerFee_never_absent_witness:
  "UseMakerFeeResult.makerFee
     (useMakerFee (\<lambda>a e. \<lparr>UseQueryResult.data = Some \<lparr>MakerFeeData.makerFee = Some (Dec 1000)\<rparr>,
                           UseQueryResult.isLoading = False,
                           UseQueryResult.error = None\<rparr>) ''osmo1orderbook'') = Dec 1000
   \<and> UseMakerFeeResult.makerFee
     (useMakerFee (\<lambda>a e. \<lparr>UseQueryResult.data = None,
                           UseQueryResult.isLoading = True,
                           UseQueryResult.error = None\<rparr>) ''osmo1orderbook'') = Dec 0"
  using useMakerFee_never_absent
          [of "\<lambda>a e. \<lparr>UseQueryResult.data = Some \<lparr>MakerFeeData.makerFee = Some (Dec 1000)\<rparr>,
                      UseQueryResult.isLoading = False,
                      UseQueryResult.error = None\<rparr>" "''osmo1orderbook''"]
        useMakerFee_never_absent
          [of "\<lambda>a e. \<lparr>UseQueryResult.data = None,
                      UseQueryResult.isLoading = True,
                      UseQueryResult.error = None\<rparr>" "''osmo1orderbook''"]
  by simp

subsection \<open>useOrderbook\<close>

text \<open>
  Claim C3. For every pair of denoms the \<open>error\<close> of \<open>useOrderbook\<close> is the code
  \<open>errors.noOrderbook\<close> when the order-books have finished loading and either no
  order-book matches the two assets or the one found has a missing or empty pool id;
  otherwise it is the message of the maker-fee query's error, and absent when that query
  has no error. The order-book is the first one of the list that matches the two resolved
  assets, the loading flag is the one of the pools query, and the maker-fee query is made
  for the contract address the hook returns.
\<close>

theorem useOrderbook_error:
  "(let r = useOrderbook getPools selectableAssetPages useSwapAsset getMakerFee b q;
        selectableAssets = (case selectableAssetPages of None \<Rightarrow> []
                            | Some d \<Rightarrow> concat (map items (pages d)));
        makerFeeQuery = getMakerFee (UseOrderbookResult.contractAddress r)
                          (UseOrderbookResult.contractAddress r \<noteq> [])
    in UseOrderbookResult.error r
         = (if \<not> isOrderbookLoading r
               \<and> (orderbook r = None
                    \<or> (\<exists>ob. orderbook r = Some ob
                             \<and> (Orderbook.poolId ob = None \<or> Orderbook.poolId ob = Some [])))
            then Some ''errors.noOrderbook''
            else map_option message (UseQueryResult.error makerFeeQuery))
       \<and> isOrderbookLoading r = UseQueryResult.isLoading getPools
       \<and> orderbook r
           = find (matches_assets (useSwapAsset b selectableAssets)
                     (useSwapAsset q selectableAssets))
               (case UseQueryResult.data getPools of None \<Rightarrow> [] | Some obs \<Rightarrow> obs))"
  by (auto simp add: useOrderbook_def orderbook_error_def useMakerFee_def useOrderbooks_def
        Let_def split: option.splits)

theorem useOrderbook_error_witness:
  "UseOrderbookResult.error
     (useOrderbook \<lparr>UseQueryResult.data = Some [], UseQueryResult.isLoading = False,
                    UseQueryResult.error = None\<rparr>
        None (\<lambda>d assets. None)
        (\<lambda>a e. \<lparr>UseQueryResult.data = None, UseQueryResult.isLoading = True,
                 UseQueryResult.error = Some \<lparr>message = ''fetch failed''\<rparr>\<rparr>)
        ''OSMO'' ''USDC'')
     = Some ''errors.noOrderbook''
   \<and> UseOrderbookResult.error
     (useOrderbook \<lparr>UseQueryResult.data = None, UseQueryResult.isLoading = True,
                    UseQueryResult.error = None\<rparr>
        None (\<lambda>d assets. None)
        (\<lambda>a e. \<lparr>UseQueryResult.data = None, UseQueryResult.isLoading = True,
                 UseQueryResult.error = Some \<lparr>message = ''fetch failed''\<rparr>\<rparr>)
        ''OSMO'' ''USDC'')
     = Some ''fetch failed''"
  using useOrderbook_error
          [of "\<lparr>UseQueryResult.data = Some [], UseQueryResult.isLoading = False,
                UseQueryResult.error = None\<rparr>"
              None "\<lambda>d assets. None"
              "\<lambda>a e. \<lparr>UseQueryResult.data = None, UseQueryResult.isLoading = True,
                       UseQueryResult.error = Some \<lparr>message = ''fetch failed''\<rparr>\<rparr>"
              "''OSMO''" "''USDC''"]
        useOrderbook_error
          [of "\<lparr>UseQueryResult.data = None, UseQueryResult.isLoading = True,
                UseQueryResult.error = None\<rparr>"
              None "\<lambda>d assets. None"
              "\<lambda>a e. \<lparr>UseQueryResult.data = None, UseQueryResult.isLoading = True,
                       UseQueryResult.error = Some \<lparr>message = ''fetch failed''\<rparr>\<rparr>"
              "''OSMO''" "''USDC''"]
  by (simp add: Let_def)

subsection \<open>useOrdersQuery and useClaimableOrdersQuery\<close>

text \<open>
  Claim C1, with the condition under which the selected query is enabled. When the flag
  \<open>sqsActiveOrders\<close> is true, the result of \<open>useOrdersQuery\<close> is the result of the
  passthrough query, field by field (\<open>data\<close>, \<open>isLoading\<close>, \<open>fetchNextPage\<close>, \<open>isFetching\<close>,
  \<open>isFetchingNextPage\<close>, \<open>hasNextPage\<close>, \<open>refetch\<close>, \<open>isRefetching\<close>), the node query is not
  enabled, and the passthrough query is enabled exactly when the user address is not empty
  and there is at least one order-book. When the flag is false the same holds with the two
  queries exchanged. \<open>useClaimableOrdersQuery\<close> returns \<open>data\<close> and \<open>isLoading\<close> only: with
  the flag its \<open>data\<close> is the list of the items of all pages of the passthrough query, the
  empty list when that query has no data, and without the flag it is the data of the node
  query as it is, absent when that query has none; \<open>isLoading\<close> is the one of the selected
  query; the other query is not enabled, and the selected one is enabled exactly when the
  user address is not empty, there is at least one order-book and the hook is not disabled.
\<close>

theorem orders_query_backend_selection:
  "(sqsActiveOrders \<longrightarrow>
      useOrdersQuery sqsActiveOrders getPools getAllOrdersSQS getAllOrders args
        = getAllOrdersSQS (ordersSQSInput args) (ordersSQSOptions sqsActiveOrders getPools args)
      \<and> \<not> enabled (ordersNodeOptions sqsActiveOrders getPools args)
      \<and> (enabled (ordersSQSOptions sqsActiveOrders getPools args)
            \<longleftrightarrow> OrdersQueryArgs.userAddress args \<noteq> []
                \<and> orderbooks (useOrderbooks getPools) \<noteq> []))
   \<and> (\<not> sqsActiveOrders \<longrightarrow>
      useOrdersQuery sqsActiveOrders getPools getAllOrdersSQS getAllOrders args
        = getAllOrders (ordersNodeInput args) (ordersNodeOptions sqsActiveOrders getPools args)
      \<and> \<not> enabled (ordersSQSOptions sqsActiveOrders getPools args)
      \<and> (enabled (ordersNodeOptions sqsActiveOrders getPools args)
            \<longleftrightarrow> OrdersQueryArgs.userAddress args \<noteq> []
                \<and> orderbooks (useOrderbooks getPools) \<noteq> []))
   \<and> (sqsActiveOrders \<longrightarrow>
      UseClaimableOrdersQueryResult.data
        (useClaimableOrdersQuery sqsActiveOrders getPools claimableSQS claimableNode cargs)
        = Some (case UseInfiniteQueryResult.data
                       (claimableSQS (claimableSQSInput cargs)
                          (claimableSQSOptions sqsActiveOrders getPools cargs)) of
                  None \<Rightarrow> [] | Some d \<Rightarrow> concat (map items (pages d)))
      \<and> UseClaimableOrdersQueryResult.isLoading
          (useClaimableOrdersQuery sqsActiveOrders getPools claimableSQS claimableNode cargs)
        = UseInfiniteQueryResult.isLoading
            (claimableSQS (claimableSQSInput cargs)
               (claimableSQSOptions sqsActiveOrders getPools cargs))
      \<and> \<not> enabled (claimableNodeOptions sqsActiveOrders getPools cargs)
      \<and> (enabled (claimableSQSOptions sqsActiveOrders getPools cargs)
            \<longleftrightarrow> ClaimableOrdersArgs.userAddress cargs \<noteq> []
                \<and> orderbooks (useOrderbooks getPools) \<noteq> []
                \<and> \<not> claimable_disabled cargs))
   \<and> (\<not> sqsActiveOrders \<longrightarrow>
      UseClaimableOrdersQueryResult.data
        (useClaimableOrdersQuery sqsActiveOrders getPools claimableSQS claimableNode cargs)
        = UseQueryResult.data
            (claimableNode (ClaimableOrdersArgs.userAddress cargs)
               (claimableNodeOptions sqsActiveOrders getPools cargs))
      \<and> UseClaimableOrdersQueryResult.isLoading
          (useClaimableOrdersQuery sqsActiveOrders getPools claimableSQS claimableNode cargs)
        = UseQueryResult.isLoading
            (claimableNode (ClaimableOrdersArgs.userAddress cargs)
               (claimableNodeOptions sqsActiveOrders getPools cargs))
      \<and> \<not> enabled (claimableSQSOptions sqsActiveOrders getPools cargs)
      \<and> (enabled (claimableNodeOptions sqsActiveOrders getPools cargs)
            \<longleftrightarrow> ClaimableOrdersArgs.userAddress cargs \<noteq> []
                \<and> orderbooks (useOrderbooks getPools) \<noteq> []
                \<and> \<not> claimable_disabled cargs))"
proof (intro conjI impI)
  assume f: sqsActiveOrders
  show "useOrdersQuery sqsActiveOrders getPools getAllOrdersSQS getAllOrders args
        = getAllOrdersSQS (ordersSQSInput args) (ordersSQSOptions sqsActiveOrders getPools args)"
    using f by (simp add: useOrdersQuery_def Let_def)
  show "\<not> enabled (ordersNodeOptions sqsActiveOrders getPools args)"
    using f by (simp add: ordersNodeOptions_def)
  show "enabled (ordersSQSOptions sqsActiveOrders getPools args)
            \<longleftrightarrow> OrdersQueryArgs.userAddress args \<noteq> []
                \<and> orderbooks (useOrderbooks getPools) \<noteq> []"
    using f by (simp add: ordersSQSOptions_def addresses_of_def)
  show "UseClaimableOrdersQueryResult.data
        (useClaimableOrdersQuery sqsActiveOrders getPools claimableSQS claimableNode cargs)
        = Some (case UseInfiniteQueryResult.data
                       (claimableSQS (claimableSQSInput cargs)
                          (claimableSQSOptions sqsActiveOrders getPools cargs)) of
                  None \<Rightarrow> [] | Some d \<Rightarrow> concat (map items (pages d)))"
    using f by (simp add: useClaimableOrdersQuery_def Let_def)
  show "UseClaimableOrdersQueryResult.isLoading
          (useClaimableOrdersQuery sqsActiveOrders getPools claimableSQS claimableNode cargs)
        = UseInfiniteQueryResult.isLoading
            (claimableSQS (claimableSQSInput cargs)
               (claimableSQSOptions sqsActiveOrders getPools cargs))"
    using f by (simp add: useClaimableOrdersQuery_def Let_def)
  show "\<not> enabled (claimableNodeOptions sqsActiveOrders getPools cargs)"
    using f by (simp add: claimableNodeOptions_def)
  show "enabled (claimableSQSOptions sqsActiveOrders getPools cargs)
            \<longleftrightarrow> ClaimableOrdersArgs.userAddress cargs \<noteq> []
                \<and> orderbooks (useOrderbooks getPools) \<noteq> []
                \<and> \<not> claimable_disabled cargs"
    using f by (simp add: claimableSQSOptions_def addresses_of_def)
next
  assume f: "\<not> sqsActiveOrders"
  show "useOrdersQuery sqsActiveOrders getPools getAllOrdersSQS getAllOrders args
        = getAllOrders (ordersNodeInput args) (ordersNodeOptions sqsActiveOrders getPools args)"
    using f by (simp add: useOrdersQuery_def Let_def)
  show "\<not> enabled (ordersSQSOptions sqsActiveOrders getPools args)"
    using f by (simp add: ordersSQSOptions_def)
  show "enabled (ordersNodeOptions sqsActiveOrders getPools args)
            \<longleftrightarrow> OrdersQueryArgs.userAddress args \<noteq> []
                \<and> orderbooks (useOrderbooks getPools) \<noteq> []"
    using f by (simp add: ordersNodeOptions_def addresses_of_def)
  show "UseClaimableOrdersQueryResult.data
        (useClaimableOrdersQuery sqsActiveOrders getPools claimableSQS claimableNode cargs)
        = UseQueryResult.data
            (claimableNode (ClaimableOrdersArgs.userAddress cargs)
               (claimableNodeOptions sqsActiveOrders getPools cargs))"
    using f by (simp add: useClaimableOrdersQuery_def Let_def)
  show "UseClaimableOrdersQueryResult.isLoading
          (useClaimableOrdersQuery sqsActiveOrders getPools claimableSQS claimableNode cargs)
        = UseQueryResult.isLoading
            (claimableNode (ClaimableOrdersArgs.userAddress cargs)
               (claimableNodeOptions sqsActiveOrders getPools cargs))"
    using f by (simp add: useClaimableOrdersQuery_def Let_def)
  show "\<not> enabled (claimableSQSOptions sqsActiveOrders getPools cargs)"
    using f by (simp add: claimableSQSOptions_def)
  show "enabled (claimableNodeOptions sqsActiveOrders getPools cargs)
            \<longleftrightarrow> ClaimableOrdersArgs.userAddress cargs \<noteq> []
                \<and> orderbooks (useOrderbooks getPools) \<noteq> []
                \<and> \<not> claimable_disabled cargs"
    using f by (simp add: claimableNodeOptions_def addresses_of_def)
qed


text \<open>An instance: the flag is on, a wallet address is given and one order-book is known.\<close>

theorem orders_query_backend_selection_witness:
  "useOrdersQuery True
     \<lparr>UseQueryResult.data =
           Some [\<lparr>baseDenom = ''uosmo'', quoteDenom = ''uusdc'',
                  Orderbook.contractAddress = ''osmo1orderbook'',
                  Orderbook.poolId = Some ''1904''\<rparr>],
          UseQueryResult.isLoading = False, UseQueryResult.error = None\<rparr>
     (\<lambda>i opts. \<lparr>UseInfiniteQueryResult.data = Some (7 :: nat),
                 UseInfiniteQueryResult.isLoading = False, fetchNextPage = True,
                 isFetching = False, isFetchingNextPage = False, hasNextPage = Some True,
                 refetch = True, isRefetching = False\<rparr>)
     (\<lambda>i opts. \<lparr>UseInfiniteQueryResult.data = None,
                 UseInfiniteQueryResult.isLoading = True, fetchNextPage = False,
                 isFetching = False, isFetchingNextPage = False, hasNextPage = None,
                 refetch = False, isRefetching = False\<rparr>)
     \<lparr>OrdersQueryArgs.userAddress = ''osmo1user'', pageSize = None,
          OrdersQueryArgs.refetchInterval = None, OrdersQueryArgs.filter_by = Some Open\<rparr>
   = \<lparr>UseInfiniteQueryResult.data = Some (7 :: nat),
      UseInfiniteQueryResult.isLoading = False, fetchNextPage = True,
      isFetching = False, isFetchingNextPage = False, hasNextPage = Some True,
      refetch = True, isRefetching = False\<rparr>
   \<and> enabled (ordersSQSOptions True
        \<lparr>UseQueryResult.data =
           Some [\<lparr>baseDenom = ''uosmo'', quoteDenom = ''uusdc'',
                  Orderbook.contractAddress = ''osmo1orderbook'',
                  Orderbook.poolId = Some ''1904''\<rparr>],
          UseQueryResult.isLoading = False, UseQueryResult.error = None\<rparr>
        \<lparr>OrdersQueryArgs.userAddress = ''osmo1user'', pageSize = None,
          OrdersQueryArgs.refetchInterval = None, OrdersQueryArgs.filter_by = Some Open\<rparr>)
   \<and> UseClaimableOrdersQueryResult.data
       (useClaimableOrdersQuery True
          \<lparr>UseQueryResult.data =
           Some [\<lparr>baseDenom = ''uosmo'', quoteDenom = ''uusdc'',
                  Orderbook.contractAddress = ''osmo1orderbook'',
                  Orderbook.poolId = Some ''1904''\<rparr>],
          UseQueryResult.isLoading = False, UseQueryResult.error = None\<rparr>
          (\<lambda>i opts. \<lparr>UseInfiniteQueryResult.data =
                   Some \<lparr>pages =
                     [\<lparr>items = [\<lparr>tick_id = 1, order_id = 10,
                                  orderbookAddress = ''osmo1orderbook''\<rparr>],
                       nextCursor = Some 1\<rparr>,
                      \<lparr>items = [\<lparr>tick_id = 2, order_id = 11,
                                  orderbookAddress = ''osmo1orderbook''\<rparr>],
                       nextCursor = None\<rparr>]\<rparr>,
                 UseInfiniteQueryResult.isLoading = False, fetchNextPage = True,
                 isFetching = False, isFetchingNextPage = False, hasNextPage = Some False,
                 refetch = True, isRefetching = False\<rparr>)
          (\<lambda>a opts. \<lparr>UseQueryResult.data = None, UseQueryResult.isLoading = True,
                 UseQueryResult.error = None\<rparr>)
          \<lparr>ClaimableOrdersArgs.userAddress = ''osmo1user'', disabled = None,
          ClaimableOrdersArgs.refetchInterval = None\<rparr>)
     = Some [\<lparr>tick_id = 1, order_id = 10, orderbookAddress = ''osmo1orderbook''\<rparr>,
             \<lparr>tick_id = 2, order_id = 11, orderbookAddress = ''osmo1orderbook''\<rparr>]"
  using orders_query_backend_selection
    [of True
        "\<lparr>UseQueryResult.data =
           Some [\<lparr>baseDenom = ''uosmo'', quoteDenom = ''uusdc'',
                  Orderbook.contractAddress = ''osmo1orderbook'',
                  Orderbook.poolId = Some ''1904''\<rparr>],
          UseQueryResult.isLoading = False, UseQueryResult.error = None\<rparr>"
        "\<lambda>i opts. \<lparr>UseInfiniteQueryResult.data = Some (7 :: nat),
                 UseInfiniteQueryResult.isLoading = False, fetchNextPage = True,
                 isFetching = False, isFetchingNextPage = False, hasNextPage = Some True,
                 refetch = True, isRefetching = False\<rparr>"
        "\<lambda>i opts. \<lparr>UseInfiniteQueryResult.data = None,
                 UseInfiniteQueryResult.isLoading = True, fetchNextPage = False,
                 isFetching = False, isFetchingNextPage = False, hasNextPage = None,
                 refetch = False, isRefetching = False\<rparr>"
        "\<lparr>OrdersQueryArgs.userAddress = ''osmo1user'', pageSize = None,
          OrdersQueryArgs.refetchInterval = None, OrdersQueryArgs.filter_by = Some Open\<rparr>"
        "\<lambda>i opts. \<lparr>UseInfiniteQueryResult.data =
                   Some \<lparr>pages =
                     [\<lparr>items = [\<lparr>tick_id = 1, order_id = 10,
                                  orderbookAddress = ''osmo1orderbook''\<rparr>],
                       nextCursor = Some 1\<rparr>,
                      \<lparr>items = [\<lparr>tick_id = 2, order_id = 11,
                                  orderbookAddress = ''osmo1orderbook''\<rparr>],
                       nextCursor = None\<rparr>]\<rparr>,
                 UseInfiniteQueryResult.isLoading = False, fetchNextPage = True,
                 isFetching = False, isFetchingNextPage = False, hasNextPage = Some False,
                 refetch = True, isRefetching = False\<rparr>"
        "\<lambda>a opts. \<lparr>UseQueryResult.data = None, UseQueryResult.isLoading = True,
                 UseQueryResult.error = None\<rparr>"
        "\<lparr>ClaimableOrdersArgs.userAddress = ''osmo1user'', disabled = None,
          ClaimableOrdersArgs.refetchInterval = None\<rparr>"]
  by (simp add: useOrderbooks_def)

text \<open>With the flag on and no wallet address the passthrough query is not enabled: no
  query is.\<close>

theorem orders_query_no_address_counterexample:
  "\<not> enabled (ordersSQSOptions True
        \<lparr>UseQueryResult.data =
           Some [\<lparr>baseDenom = ''uosmo'', quoteDenom = ''uusdc'',
                  Orderbook.contractAddress = ''osmo1orderbook'',
                  Orderbook.poolId = Some ''1904''\<rparr>],
         UseQueryResult.isLoading = False, UseQueryResult.error = None\<rparr>
        \<lparr>OrdersQueryArgs.userAddress = [], pageSize = None,
         OrdersQueryArgs.refetchInterval = None, OrdersQueryArgs.filter_by = None\<rparr>)
   \<and> \<not> enabled (ordersNodeOptions True
        \<lparr>UseQueryResult.data =
           Some [\<lparr>baseDenom = ''uosmo'', quoteDenom = ''uusdc'',
                  Orderbook.contractAddress = ''osmo1orderbook'',
                  Orderbook.poolId = Some ''1904''\<rparr>],
         UseQueryResult.isLoading = False, UseQueryResult.error = None\<rparr>
        \<lparr>OrdersQueryArgs.userAddress = [], pageSize = None,
         OrdersQueryArgs.refetchInterval = None, OrdersQueryArgs.filter_by = None\<rparr>)"
  by (simp add: ordersSQSOptions_def ordersNodeOptions_def)

subsection \<open>claimAllOrders\<close>

lemma claim_msgs_eq:
  "claim_msgs addresses os =
     map (\<lambda>a. \<lparr>ExecuteContractMsg.contractAddress = a,
                msg = \<lparr>batch_claim =
                        \<lparr>orders = map (\<lambda>ord. [tick_id ord, order_id ord])
                                       (filter (\<lambda>ord. orderbookAddress ord = a) os)\<rparr>\<rparr>,
                funds = []\<rparr>)
         (filter (\<lambda>a. \<exists>ord \<in> set os. orderbookAddress ord = a) addresses)"
proof (induction addresses)
  case Nil
  show ?case by (simp add: claim_msgs_def List.map_filter_simps)
next
  case (Cons a addresses)
  have f: "filter (\<lambda>ord. orderbookAddress ord = a) os = [] \<longleftrightarrow>
             \<not> (\<exists>ord \<in> set os. orderbookAddress ord = a)"
    by (auto simp add: filter_empty_conv)
  from Cons show ?case
    unfolding claim_msgs_def by (simp add: List.map_filter_simps Let_def f)
qed

lemma claim_msgs_empty:
  "claim_msgs addresses os = [] \<longleftrightarrow>
     \<not> (\<exists>a \<in> set addresses. \<exists>ord \<in> set os. orderbookAddress ord = a)"
  unfolding claim_msgs_eq by (auto simp add: filter_empty_conv)

text \<open>
  Claim C2, with the case in which nothing is submitted. For a connected account and a
  list of claimable orders, \<open>claimAllOrders\<close> builds one message for each order-book of
  the list whose contract address has at least one order, in the order of the list: the
  message is for that contract address, its payload is a \<open>batch_claim\<close> of the pairs
  \<open>[tick_id, order_id]\<close> of exactly the orders of that address, in their order, and its
  funds are empty. When at least one order is of a known order-book, all these messages
  are submitted in one \<open>executeWasm\<close> call on the account, and nothing else is submitted;
  when none is, nothing is submitted.
\<close>

theorem claimAllOrders_batch:
  "claimAllOrders (Some acc) (Some os) addresses submitted =
     (if \<exists>a \<in> set addresses. \<exists>ord \<in> set os. orderbookAddress ord = a
      then submitted @
        [SendMultiExecuteContractMsg acc ''executeWasm''
           (map (\<lambda>a. \<lparr>ExecuteContractMsg.contractAddress = a,
                      msg = \<lparr>batch_claim =
                              \<lparr>orders = map (\<lambda>ord. [tick_id ord, order_id ord])
                                             (filter (\<lambda>ord. orderbookAddress ord = a) os)\<rparr>\<rparr>,
                      funds = []\<rparr>)
              (filter (\<lambda>a. \<exists>ord \<in> set os. orderbookAddress ord = a) addresses))]
      else submitted)"
proof (cases "claim_msgs addresses os = []")
  case True
  then show ?thesis using claim_msgs_empty [of addresses os]
    by (simp add: claimAllOrders_def)
next
  case False
  then show ?thesis using claim_msgs_empty [of addresses os] claim_msgs_eq [of addresses os]
    by (simp add: claimAllOrders_def Let_def)
qed

theorem claimAllOrders_batch_witness:
  "claimAllOrders (Some (Account ''osmo1user''))
     (Some [\<lparr>tick_id = 1, order_id = 10, orderbookAddress = ''osmo1a''\<rparr>,
            \<lparr>tick_id = 2, order_id = 11, orderbookAddress = ''osmo1b''\<rparr>,
            \<lparr>tick_id = 3, order_id = 12, orderbookAddress = ''osmo1a''\<rparr>])
     [''osmo1a'', ''osmo1b'', ''osmo1c''] []
   = [SendMultiExecuteContractMsg (Account ''osmo1user'') ''executeWasm''
        [\<lparr>ExecuteContractMsg.contractAddress = ''osmo1a'',
          msg = \<lparr>batch_claim = \<lparr>orders = [[1, 10], [3, 12]]\<rparr>\<rparr>, funds = []\<rparr>,
         \<lparr>ExecuteContractMsg.contractAddress = ''osmo1b'',
          msg = \<lparr>batch_claim = \<lparr>orders = [[2, 11]]\<rparr>\<rparr>, funds = []\<rparr>]]"
  using claimAllOrders_batch
    [of "Account ''osmo1user''"
        "[\<lparr>tick_id = 1, order_id = 10, orderbookAddress = ''osmo1a''\<rparr>,
          \<lparr>tick_id = 2, order_id = 11, orderbookAddress = ''osmo1b''\<rparr>,
          \<lparr>tick_id = 3, order_id = 12, orderbookAddress = ''osmo1a''\<rparr>]"
        "[''osmo1a'', ''osmo1b'', ''osmo1c'']" "[]"]
  by simp

text \<open>A connected account and a non-empty list of claimable orders, none of them of a
  known order-book: no call is made.\<close>

theorem claimAllOrders_unknown_orderbook_counterexample:
  "claimAllOrders (Some (Account ''osmo1user''))
     (Some [\<lparr>tick_id = 1, order_id = 10, orderbookAddress = ''osmo1b''\<rparr>])
     [''osmo1a''] [] = []"
  by (simp add: claimAllOrders_def claim_msgs_def List.map_filter_simps)

text \<open>
  Claim C10. \<open>claimAllOrders\<close> submits nothing and leaves the wallet's submissions as they
  are when there is no connected account, when the claimable orders are absent, or when no
  claimable order is of a known order-book contract address.
\<close>

theorem claimAllOrders_no_submission:
  assumes "account = None \<or> os = None
           \<or> (\<exists>os'. os = Some os'
                 \<and> \<not> (\<exists>a \<in> set addresses. \<exists>ord \<in> set os'. orderbookAddress ord = a))"
  shows "claimAllOrders account os addresses submitted = submitted"
proof (cases account)
  case None
  then show ?thesis by (simp add: claimAllOrders_def)
next
  case (Some acc)
  show ?thesis
  proof (cases os)
    case None
    with Some show ?thesis by (simp add: claimAllOrders_def)
  next
    case (Some os')
    with assms \<open>account = Some acc\<close> have "claim_msgs addresses os' = []"
      using claim_msgs_empty [of addresses os'] by simp
    with Some \<open>account = Some acc\<close> show ?thesis by (simp add: claimAllOrders_def)
  qed
qed

theorem claimAllOrders_no_submission_witness:
  "claimAllOrders None
     (Some [\<lparr>tick_id = 1, order_id = 10, orderbookAddress = ''osmo1a''\<rparr>])
     [''osmo1a'']
     [SendMultiExecuteContractMsg (Account ''osmo1user'') ''executeWasm'' []]
   = [SendMultiExecuteContractMsg (Account ''osmo1user'') ''executeWasm'' []]
   \<and> claimAllOrders (Some (Account ''osmo1user'')) None [''osmo1a''] [] = []
   \<and> claimAllOrders (Some (Account ''osmo1user''))
       (Some [\<lparr>tick_id = 4, order_id = 40, orderbookAddress = ''osmo1z''\<rparr>])
       [''osmo1a''] [] = []"
  using claimAllOrders_no_submission
          [of None "Some [\<lparr>tick_id = 1, order_id = 10, orderbookAddress = ''osmo1a''\<rparr>]"
              "[''osmo1a'']"
              "[SendMultiExecuteContractMsg (Account ''osmo1user'') ''executeWasm'' []]"]
        claimAllOrders_no_submission
          [of "Some (Account ''osmo1user'')" None "[''osmo1a'']" "[]"]
        claimAllOrders_no_submission
          [of "Some (Account ''osmo1user'')"
              "Some [\<lparr>tick_id = 4, order_id = 40, orderbookAddress = ''osmo1z''\<rparr>]"
              "[''osmo1a'']" "[]"]
  by simp

end
